theory Spec2Isabelle
  imports Main "HOL-Library.Sublist" "HOL-Library.Multiset"
begin

section \<open>Data model (src/types.ts)\<close>

text \<open>
  A JavaScript string is modelled as a \<open>string\<close>: a list of characters, each read as
  one code unit below 256. Optional fields (\<open>isDirectory?\<close>, \<open>isOpen?\<close>,
  \<open>thumbnail?\<close>) are options, \<open>None\<close> being \<open>undefined\<close>. The fields of the two
  interfaces carry the prefixes \<open>f_\<close> and \<open>p_\<close>, since both interfaces have an
  \<open>id\<close> and a \<open>name\<close>.
\<close>

datatype FileLanguage = html | css | javascript | json | xml | php | image | font

record File =
  f_id :: string
  f_name :: string
  f_content :: string
  f_language :: FileLanguage
  f_parentId :: string
  f_isDirectory :: "bool option"
  f_isOpen :: "bool option"

datatype ProjectType = type_html | type_php

record Project =
  p_id :: string
  p_name :: string
  p_type :: ProjectType
  p_lastModified :: nat
  p_files :: "File list"
  p_thumbnail :: "string option"

text \<open>JavaScript truthiness of an optional boolean: \<open>undefined\<close> and \<open>false\<close> are falsy.\<close>

definition truthy :: "bool option \<Rightarrow> bool" where
  "truthy b = (b = Some True)"

section \<open>Strings\<close>

definition code :: "char \<Rightarrow> nat" where
  "code c = of_char c"

text \<open>
  The class \<open>\s\<close> of a regular expression and the characters \<open>trim\<close> strips are the
  same set (white space and line terminators); below 256 these are TAB, LF, VT, FF, CR,
  space and the no-break space.
\<close>

definition isWhiteSpace :: "char \<Rightarrow> bool" where
  "isWhiteSpace c = (code c \<in> {9, 10, 11, 12, 13, 32, 160})"

definition trim :: "string \<Rightarrow> string" where
  "trim s = rev (dropWhile isWhiteSpace (rev (dropWhile isWhiteSpace s)))"

text \<open>The character class \<open>[a-zA-Z0-9-_\s]\<close>, whose complement the sanitization strips.\<close>

definition safeChar :: "char \<Rightarrow> bool" where
  "safeChar c =
     ((97 \<le> code c \<and> code c \<le> 122) \<or> (65 \<le> code c \<and> code c \<le> 90) \<or>
      (48 \<le> code c \<and> code c \<le> 57) \<or> c = CHR ''-'' \<or> c = CHR ''_'' \<or> isWhiteSpace c)"

text \<open>
  \<open>project.name.replace(/[^a-zA-Z0-9-_\s]/g, '').trim() || "Project"\<close>: the empty
  string is falsy, so it is replaced by the default label.
\<close>

definition safeProjectName :: "string \<Rightarrow> string" where
  "safeProjectName n =
     (let s = trim (filter safeChar n) in if s = [] then ''Project'' else s)"

section \<open>String search and replacement\<close>

text \<open>
  A matcher says, for the text at the current position, how many characters the match
  that starts there takes (\<open>None\<close>: no match starts there). A string pattern matches
  itself; \<open>search\<close> returns the text before the first match, the match and the text
  after it.
\<close>

type_synonym matcher = "string \<Rightarrow> nat option"

definition stringPattern :: "string \<Rightarrow> matcher" where
  "stringPattern pat s = (if prefix pat s then Some (length pat) else None)"

fun search :: "matcher \<Rightarrow> string \<Rightarrow> (string \<times> string \<times> string) option" where
  "search m [] = (case m [] of Some n \<Rightarrow> Some ([], [], []) | None \<Rightarrow> None)"
| "search m (c # cs) =
     (case m (c # cs) of
        Some n \<Rightarrow> Some ([], take n (c # cs), drop n (c # cs))
      | None \<Rightarrow> (case search m cs of
                   Some (b, x, a) \<Rightarrow> Some (c # b, x, a)
                 | None \<Rightarrow> None))"

definition includes_str :: "string \<Rightarrow> string \<Rightarrow> bool" where
  "includes_str pat s = (search (stringPattern pat) s \<noteq> None)"

text \<open>
  \<open>String.prototype.replace\<close> expands its replacement string (GetSubstitution of
  ECMAScript) also when the pattern is a string: \<open>$$\<close> is a dollar sign, \<open>$&\<close> the
  matched text, \<open>$`\<close> the text before the match and \<open>$'\<close> the text after it. None of
  the patterns used here has a capture group, so \<open>$1\<close> ... \<open>$99\<close> and \<open>$<\<close> stay as
  they are written.
\<close>

fun getSubstitution :: "string \<Rightarrow> string \<Rightarrow> string \<Rightarrow> string \<Rightarrow> string" where
  "getSubstitution matched pre post [] = []"
| "getSubstitution matched pre post [c] = [c]"
| "getSubstitution matched pre post (c # d # t) =
     (if c = CHR ''$'' \<and> d = CHR ''$'' then CHR ''$'' # getSubstitution matched pre post t
      else if c = CHR ''$'' \<and> d = CHR ''&'' then matched @ getSubstitution matched pre post t
      else if c = CHR ''$'' \<and> d = CHR 0x60 then pre @ getSubstitution matched pre post t
      else if c = CHR ''$'' \<and> d = CHR 0x27 then post @ getSubstitution matched pre post t
      else c # getSubstitution matched pre post (d # t))"

text \<open>\<open>s.replace(pattern, replacement)\<close> without the \<open>g\<close> flag: the first match only.\<close>

definition replaceFirst :: "matcher \<Rightarrow> string \<Rightarrow> string \<Rightarrow> string" where
  "replaceFirst m replacement s =
     (case search m s of
        None \<Rightarrow> s
      | Some (b, x, a) \<Rightarrow> b @ getSubstitution x b a replacement @ a)"

text \<open>
  \<open>s.replace(regex, '')\<close> with the \<open>g\<close> flag: every match is removed, the search going
  on after the end of each match (one character further after an empty match).
\<close>

fun removeAll :: "matcher \<Rightarrow> string \<Rightarrow> string" where
  "removeAll m [] = []"
| "removeAll m (c # cs) =
     (case m (c # cs) of
        Some (Suc n) \<Rightarrow> removeAll m (drop n cs)
      | _ \<Rightarrow> c # removeAll m cs)"

section \<open>Regular expressions\<close>

text \<open>
  The regular expressions of the exporter are sequences of: one character of a class, a
  greedy or a lazy star of a class, and an optional group. \<open>rmatch\<close> is the backtracking
  matcher of ECMAScript on such sequences: it returns the text left after the first
  match in the matcher's priority order (a greedy star tries the longest run first, a
  lazy star the shortest, an optional group is tried before it is skipped).
\<close>

datatype atom =
    One "char \<Rightarrow> bool"
  | StarGreedy "char \<Rightarrow> bool"
  | StarLazy "char \<Rightarrow> bool"
  | Optional "atom list"

function rmatch :: "atom list \<Rightarrow> string \<Rightarrow> string option" where
  "rmatch [] s = Some s"
| "rmatch (One p # r) [] = None"
| "rmatch (One p # r) (c # cs) = (if p c then rmatch r cs else None)"
| "rmatch (StarGreedy p # r) [] = rmatch r []"
| "rmatch (StarGreedy p # r) (c # cs) =
     (if p c then (case rmatch (StarGreedy p # r) cs of
                     Some t \<Rightarrow> Some t
                   | None \<Rightarrow> rmatch r (c # cs))
      else rmatch r (c # cs))"
| "rmatch (StarLazy p # r) [] = rmatch r []"
| "rmatch (StarLazy p # r) (c # cs) =
     (case rmatch r (c # cs) of
        Some t \<Rightarrow> Some t
      | None \<Rightarrow> (if p c then rmatch (StarLazy p # r) cs else None))"
| "rmatch (Optional g # r) s =
     (case rmatch (g @ r) s of
        Some t \<Rightarrow> Some t
      | None \<Rightarrow> rmatch r s)"
  by pat_completeness auto
termination
  by (relation "measures [\<lambda>(r, s). size_list size r, \<lambda>(r, s). length s]") auto

definition regexMatcher :: "atom list \<Rightarrow> matcher" where
  "regexMatcher r s =
     (case rmatch r s of None \<Rightarrow> None | Some t \<Rightarrow> Some (length s - length t))"

text \<open>
  With the \<open>i\<close> flag a pattern character matches a text character when both have the
  same upper case (here: its code). The pattern characters used here are ASCII, and no character from
  128 on is canonicalized to an ASCII one, so upper case over ASCII letters decides it.
\<close>

definition upper :: "char \<Rightarrow> nat" where
  "upper c = (if 97 \<le> code c \<and> code c \<le> 122 then code c - 32 else code c)"

definition ciEq :: "char \<Rightarrow> char \<Rightarrow> bool" where
  "ciEq p c = (upper p = upper c)"

definition lit :: "string \<Rightarrow> atom list" where
  "lit s = map (\<lambda>p. One (ciEq p)) s"

definition isQuote :: "char \<Rightarrow> bool" where
  "isQuote c = (c = CHR 0x22 \<or> c = CHR 0x27)"

text \<open>The dot matches every character but a line terminator.\<close>

definition isDot :: "char \<Rightarrow> bool" where
  "isDot c = (c \<noteq> CHR 0x0A \<and> c \<noteq> CHR 0x0D)"

definition notGt :: "char \<Rightarrow> bool" where
  "notGt c = (c \<noteq> CHR ''>'')"

text \<open>\<open>/<body/i\<close>\<close>

definition bodyRegex :: "atom list" where
  "bodyRegex = lit ''<body''"

text \<open>\<open>/<link\s+[^>]*href=["'](.*?\/)?style\.css["'][^>]*>/gi\<close>\<close>

definition linkTagRegex :: "atom list" where
  "linkTagRegex =
     lit ''<link'' @ [One isWhiteSpace, StarGreedy isWhiteSpace, StarGreedy notGt] @
     lit ''href='' @ [One isQuote, Optional [StarLazy isDot, One (\<lambda>c. c = CHR ''/'')]] @
     lit ''style.css'' @ [One isQuote, StarGreedy notGt, One (\<lambda>c. c = CHR ''>'')]"

text \<open>
  \<open>new RegExp(`<script\s+[^>]*src=["'](.*?\/)?${jsNameRegex}["'][^>]*>\s*<\/script>`, 'gi')\<close>
  where \<open>jsNameRegex\<close> is the file's name with its first dot escaped. The name is
  \<open>script.js\<close> or \<open>main.js\<close> (the file was found by that name), whose only special
  character is that dot, so the name stands for itself.
\<close>

definition scriptTagRegex :: "string \<Rightarrow> atom list" where
  "scriptTagRegex jsName =
     lit ''<script'' @ [One isWhiteSpace, StarGreedy isWhiteSpace, StarGreedy notGt] @
     lit ''src='' @ [One isQuote, Optional [StarLazy isDot, One (\<lambda>c. c = CHR ''/'')]] @
     lit jsName @ [One isQuote, StarGreedy notGt, One (\<lambda>c. c = CHR ''>''),
       StarGreedy isWhiteSpace] @
     lit ''</script>''"

section \<open>Single-file merge (exportProject, single file mode)\<close>

definition nl :: string where
  "nl = [CHR 0x0A]"

text \<open>\<open>`<style>\n/* Injected from style.css */\n${cssFile.content}\n</style>`\<close>\<close>

definition cssBlockOf :: "string \<Rightarrow> string" where
  "cssBlockOf cssContent =
     ''<style>'' @ nl @ ''/* Injected from style.css */'' @ nl @ cssContent @ nl @ ''</style>''"

text \<open>\<open>`<script>\n/* Injected from ${jsFile.name} */\n${jsFile.content}\n</script>`\<close>\<close>

definition jsBlockOf :: "File \<Rightarrow> string" where
  "jsBlockOf jsFile =
     ''<script>'' @ nl @ ''/* Injected from '' @ f_name jsFile @ '' */'' @ nl @
     f_content jsFile @ nl @ ''</script>''"

text \<open>Lines 49 to 55: where the style block goes.\<close>

definition injectCss :: "string \<Rightarrow> string \<Rightarrow> string" where
  "injectCss cssBlock finalHtml =
     (if includes_str ''</head>'' finalHtml
      then replaceFirst (stringPattern ''</head>'') (cssBlock @ nl @ ''</head>'') finalHtml
      else if includes_str ''<body'' finalHtml
      then replaceFirst (regexMatcher bodyRegex) (cssBlock @ nl @ ''<body'') finalHtml
      else cssBlock @ nl @ finalHtml)"

text \<open>Lines 70 to 74: where the script block goes.\<close>

definition injectJs :: "string \<Rightarrow> string \<Rightarrow> string" where
  "injectJs jsBlock finalHtml =
     (if includes_str ''</body>'' finalHtml
      then replaceFirst (stringPattern ''</body>'') (jsBlock @ nl @ ''</body>'') finalHtml
      else finalHtml @ nl @ jsBlock)"

definition findByName :: "string \<Rightarrow> File list \<Rightarrow> File option" where
  "findByName n fs = find (\<lambda>f. f_name f = n) fs"

text \<open>Lines 44 to 60: the style sheet is merged and its \<open>link\<close> tags are removed.\<close>

definition mergeCss :: "File list \<Rightarrow> string \<Rightarrow> string" where
  "mergeCss fs finalHtml =
     (case findByName ''style.css'' fs of
        None \<Rightarrow> finalHtml
      | Some cssFile \<Rightarrow>
          removeAll (regexMatcher linkTagRegex)
            (injectCss (cssBlockOf (f_content cssFile)) finalHtml))"

text \<open>
  Line 65: \<open>find(script.js) || find(main.js)\<close>; a File that was found is an object,
  hence truthy.
\<close>

definition chooseJsFile :: "File list \<Rightarrow> File option" where
  "chooseJsFile fs =
     (case findByName ''script.js'' fs of
        Some f \<Rightarrow> Some f
      | None \<Rightarrow> findByName ''main.js'' fs)"

text \<open>Lines 65 to 80: the script is merged and its \<open>script\<close> elements are removed.\<close>

definition mergeJs :: "File list \<Rightarrow> string \<Rightarrow> string" where
  "mergeJs fs finalHtml =
     (case chooseJsFile fs of
        None \<Rightarrow> finalHtml
      | Some jsFile \<Rightarrow>
          removeAll (regexMatcher (scriptTagRegex (f_name jsFile)))
            (injectJs (jsBlockOf jsFile) finalHtml))"

text \<open>
  The insertion as the specification words it, to compare \<open>injectCss\<close> and \<open>injectJs\<close>
  with: the block (and the line break the source puts after it) goes, unchanged,
  immediately before the first occurrence of the tag, and the rest of the document stays
  as it is.
\<close>

definition spec_insertBefore :: "string \<Rightarrow> string \<Rightarrow> string \<Rightarrow> string option" where
  "spec_insertBefore tag block doc =
     (case search (stringPattern tag) doc of
        None \<Rightarrow> None
      | Some (b, x, a) \<Rightarrow> Some (b @ block @ nl @ tag @ a))"

definition spec_injectCss :: "string \<Rightarrow> string \<Rightarrow> string" where
  "spec_injectCss cssBlock doc =
     (case spec_insertBefore ''</head>'' cssBlock doc of
        Some d \<Rightarrow> d
      | None \<Rightarrow> (case spec_insertBefore ''<body'' cssBlock doc of
                   Some d \<Rightarrow> d
                 | None \<Rightarrow> cssBlock @ nl @ doc))"

definition spec_injectJs :: "string \<Rightarrow> string \<Rightarrow> string" where
  "spec_injectJs jsBlock doc =
     (case spec_insertBefore ''</body>'' jsBlock doc of
        Some d \<Rightarrow> d
      | None \<Rightarrow> doc @ nl @ jsBlock)"

datatype export_error =
    NoProjectDetected
  | RootFolderCreationFailed
  | MissingEntryPoint
  | CallStackExceeded
  | InvalidBase64Input

text \<open>
  Lines 37 to 80: the merged document, or the error thrown at line 38 (the spec's
  \<open>MissingEntryPoint\<close>) when no File is named \<open>index.html\<close>.
\<close>

definition singleFileHtml :: "File list \<Rightarrow> export_error + string" where
  "singleFileHtml fs =
     (case findByName ''index.html'' fs of
        None \<Rightarrow> Inl MissingEntryPoint
      | Some indexFile \<Rightarrow> Inr (mergeJs fs (mergeCss fs (f_content indexFile))))"

section \<open>The archive (JSZip)\<close>

text \<open>
  JSZip is a library the exporter calls. Its archive is modelled as the list of its
  entries, each a full path with what was stored under it, in the order of their
  creation. \<open>folder(name)\<close> returns the archive itself for an empty name, and otherwise
  adds the entry of the folder (its path ends with a slash) unless there is one, and
  returns a view rooted there; it never returns a falsy value. \<open>file(name, data)\<close>
  stores the data under the root's path followed by the name, replacing an entry of the
  same path. Data given with \<open>{base64: true}\<close> is kept as the text that is still to be
  decoded (\<open>Base64Data\<close>); the decoding is done when the archive is generated, where an
  entry of the generated archive holds bytes (\<open>BinaryData\<close>). The folders JSZip adds
  for a name that itself contains a slash are not modelled.
\<close>

datatype zipData = Folder | TextData string | Base64Data string | BinaryData "nat list"

type_synonym JSZip = "(string \<times> zipData) list"

definition forceTrailingSlash :: "string \<Rightarrow> string" where
  "forceTrailingSlash n = (if n \<noteq> [] \<and> last n = CHR ''/'' then n else n @ ''/'')"

fun zipPut :: "string \<Rightarrow> zipData \<Rightarrow> JSZip \<Rightarrow> JSZip" where
  "zipPut path d [] = [(path, d)]"
| "zipPut path d ((q, e) # z) = (if q = path then (path, d) # z else (q, e) # zipPut path d z)"

definition zipFolder :: "string \<Rightarrow> string \<Rightarrow> JSZip \<Rightarrow> string \<times> JSZip" where
  "zipFolder root n z =
     (if n = [] then (root, z)
      else (let path = forceTrailingSlash (root @ n)
            in (path, if path \<in> fst ` set z then z else z @ [(path, Folder)])))"

definition zipFile :: "string \<Rightarrow> string \<Rightarrow> zipData \<Rightarrow> JSZip \<Rightarrow> JSZip" where
  "zipFile root n d z = zipPut (root @ n) d z"

text \<open>The entries of an archive that are files.\<close>

definition fileEntries :: "JSZip \<Rightarrow> (string \<times> zipData) list" where
  "fileEntries z = filter (\<lambda>(path, d). d \<noteq> Folder) z"

subsection \<open>Generation of the archive\<close>

text \<open>
  JSZip's base64 decoder, as \<open>generateAsync\<close> applies it to the data of an entry given
  with \<open>{base64: true}\<close>. It throws for a text that begins with \<open>data:\<close>; it drops every
  character outside \<open>[A-Za-z0-9+/=]\<close>; it throws when the length of what is left is not
  a multiple of four (the length \<open>3n/4\<close> of the result is then not an integer); and it
  decodes groups of four characters, each by its index in the key string
  \<open>A..Za..z0..9+/=\<close>, into an array of bytes of the computed length.
\<close>

unbundle bit_operations_syntax

definition base64Char :: "char \<Rightarrow> bool" where
  "base64Char c =
     ((65 \<le> code c \<and> code c \<le> 90) \<or> (97 \<le> code c \<and> code c \<le> 122) \<or>
      (48 \<le> code c \<and> code c \<le> 57) \<or> c = CHR ''+'' \<or> c = CHR ''/'' \<or> c = CHR ''='')"

definition keyIndex :: "char \<Rightarrow> nat" where
  "keyIndex c =
     (if 65 \<le> code c \<and> code c \<le> 90 then code c - 65
      else if 97 \<le> code c \<and> code c \<le> 122 then code c - 97 + 26
      else if 48 \<le> code c \<and> code c \<le> 57 then code c - 48 + 52
      else if c = CHR ''+'' then 62
      else if c = CHR ''/'' then 63
      else 64)"

fun decodeGroups :: "string \<Rightarrow> nat list" where
  "decodeGroups (a # b # c # d # rest) =
     (let enc1 = keyIndex a; enc2 = keyIndex b; enc3 = keyIndex c; enc4 = keyIndex d;
          chr1 = (push_bit 2 enc1 OR drop_bit 4 enc2) mod 256;
          chr2 = (push_bit 4 (enc2 AND 15) OR drop_bit 2 enc3) mod 256;
          chr3 = (push_bit 6 (enc3 AND 3) OR enc4) mod 256
      in [chr1] @ (if enc3 \<noteq> 64 then [chr2] else []) @ (if enc4 \<noteq> 64 then [chr3] else []) @
         decodeGroups rest)"
| "decodeGroups rest = []"

definition base64_decode :: "string \<Rightarrow> nat list option" where
  "base64_decode input =
     (if prefix ''data:'' input then None
      else (let cleaned = filter base64Char input;
                n = length cleaned;
                totalLength = n * 3 div 4
                  - (if cleaned \<noteq> [] \<and> last cleaned = CHR ''='' then 1 else 0)
                  - (if 2 \<le> n \<and> cleaned ! (n - 2) = CHR ''='' then 1 else 0)
            in if n mod 4 \<noteq> 0 then None
               else Some (take totalLength (decodeGroups cleaned @ replicate totalLength 0))))"

text \<open>
  \<open>zip.generateAsync\<close>, lines 125 to 129: every entry given as base64 is decoded, and
  the promise is rejected when the decoder throws for one of them; then no archive is
  made and the \<open>catch\<close> of line 143 reports the error. Text and folders are taken as
  they are. The compression is not modelled.
\<close>

definition generateData :: "zipData \<Rightarrow> zipData option" where
  "generateData d =
     (case d of
        Base64Data s \<Rightarrow> map_option BinaryData (base64_decode s)
      | _ \<Rightarrow> Some d)"

fun generateAsync :: "JSZip \<Rightarrow> export_error + JSZip" where
  "generateAsync [] = Inr []"
| "generateAsync ((path, d) # z) =
     (case generateData d of
        None \<Rightarrow> Inl InvalidBase64Input
      | Some d' \<Rightarrow>
          (case generateAsync z of
             Inl e \<Rightarrow> Inl e
           | Inr blob \<Rightarrow> Inr ((path, d') # blob)))"

section \<open>Standard export (exportProject, recursive mode)\<close>

text \<open>\<open>content.split(',')\<close>: the pieces between the commas; never an empty list.\<close>

fun splitOn :: "char \<Rightarrow> string \<Rightarrow> string list" where
  "splitOn sep [] = [[]]"
| "splitOn sep (c # cs) =
     (if c = sep then [] # splitOn sep cs
      else (case splitOn sep cs of
              [] \<Rightarrow> [[c]]
            | part # parts \<Rightarrow> (c # part) # parts))"

text \<open>
  Lines 101 to 114: what is written for a leaf. \<open>item.content\<close> is a string, so the
  test \<open>typeof content === 'string'\<close> holds. When the content of an image or a font
  starts with \<open>data:\<close> and has no comma, nothing is written.
\<close>

definition writeLeaf :: "File \<Rightarrow> string \<Rightarrow> JSZip \<Rightarrow> JSZip" where
  "writeLeaf item root z =
     (let content = f_content item;
          isBinary = (f_language item = image \<or> f_language item = font)
      in if isBinary \<and> prefix ''data:'' content
         then (let parts = splitOn CHR '','' content
               in if length parts > 1
                  then zipFile root (f_name item) (Base64Data (parts ! 1)) z
                  else z)
         else zipFile root (f_name item) (TextData content) z)"



definition spec_dataUriPayload :: "string \<Rightarrow> string" where
  "spec_dataUriPayload content = drop 1 (dropWhile (\<lambda>c. c \<noteq> CHR '','') content)"




text \<open>
  Lines 92 to 116: the loop over the items of a folder. \<open>recurse\<close> is the recursive call
  of line 97; its result \<open>None\<close> is a recursion that does not come back (the call stack
  is exhausted and the exception ends the export).
\<close>

fun forEachItem ::
  "(string \<Rightarrow> string \<Rightarrow> JSZip \<Rightarrow> JSZip option) \<Rightarrow> File list \<Rightarrow> string \<Rightarrow> JSZip \<Rightarrow> JSZip option"
where
  "forEachItem recurse [] root z = Some z"
| "forEachItem recurse (item # items) root z =
     (if truthy (f_isDirectory item)
      then (case zipFolder root (f_name item) z of
              (newRoot, z') \<Rightarrow>
                (case recurse (f_id item) newRoot z' of
                   None \<Rightarrow> None
                 | Some z'' \<Rightarrow> forEachItem recurse items root z''))
      else forEachItem recurse items root (writeLeaf item root z))"

text \<open>Line 90: the items of a folder, as the traversal enumerates them.\<close>

definition processFolder_items :: "File list \<Rightarrow> string \<Rightarrow> File list" where
  "processFolder_items fs parentId = filter (\<lambda>f. f_parentId f = parentId) fs"

text \<open>
  Lines 89 to 117. The first argument bounds the depth of the recursion, as the call
  stack does: a parent chain with a cycle makes the source recurse until the stack is
  exhausted.
\<close>

fun processFolder :: "nat \<Rightarrow> File list \<Rightarrow> string \<Rightarrow> string \<Rightarrow> JSZip \<Rightarrow> JSZip option" where
  "processFolder 0 fs parentId root z = None"
| "processFolder (Suc depth) fs parentId root z =
     forEachItem (processFolder depth fs) (processFolder_items fs parentId) root z"

text \<open>
  Lines 22 to 139: the generated archive and the name of the download, or the error
  the \<open>catch\<close> reports. \<open>zip.folder\<close> never returns a falsy value, so the error of line
  31 is never thrown.
\<close>

definition exportProject ::
  "nat \<Rightarrow> bool \<Rightarrow> Project option \<Rightarrow> export_error + (JSZip \<times> string)" where
  "exportProject stack isSingleFile project =
     (case project of
        None \<Rightarrow> Inl NoProjectDetected
      | Some p \<Rightarrow>
          (let safeName = safeProjectName (p_name p)
           in case zipFolder [] safeName [] of
                (rootFolder, zip') \<Rightarrow>
                  (case (if isSingleFile
                         then (case singleFileHtml (p_files p) of
                                 Inl e \<Rightarrow> Inl e
                               | Inr finalHtml \<Rightarrow>
                                   Inr (zipFile rootFolder ''index.html'' (TextData finalHtml) zip'))
                         else (case processFolder stack (p_files p) ''root'' rootFolder zip' of
                                 None \<Rightarrow> Inl CallStackExceeded
                               | Some z \<Rightarrow> Inr z)) of
                     Inl e \<Rightarrow> Inl e
                   | Inr z \<Rightarrow>
                       (case generateAsync z of
                          Inl e \<Rightarrow> Inl e
                        | Inr blob \<Rightarrow> Inr (blob, safeName @ ''.zip'')))))"

section \<open>Child listing of the file explorer (renderTree)\<close>

text \<open>
  Lines 221 to 224 of the explorer: the comparator of the sort. \<open>localeCompare\<close> is the
  platform's comparison of two names; it depends on the locale and is a parameter.
\<close>

definition compareItems :: "(string \<Rightarrow> string \<Rightarrow> int) \<Rightarrow> File \<Rightarrow> File \<Rightarrow> int" where
  "compareItems localeCompare a b =
     (if f_isDirectory a = f_isDirectory b then localeCompare (f_name a) (f_name b)
      else if truthy (f_isDirectory a) then - 1 else 1)"

text \<open>
  \<open>Array.prototype.sort\<close> is stable. For a consistent comparator its result is the one
  stable sorted arrangement, which insertion from the right computes; for an
  inconsistent comparator ECMAScript leaves the order to the implementation.
\<close>

fun insertBy :: "('a \<Rightarrow> 'a \<Rightarrow> int) \<Rightarrow> 'a \<Rightarrow> 'a list \<Rightarrow> 'a list" where
  "insertBy cmp x [] = [x]"
| "insertBy cmp x (y # ys) = (if cmp x y \<le> 0 then x # y # ys else y # insertBy cmp x ys)"

definition sortBy :: "('a \<Rightarrow> 'a \<Rightarrow> int) \<Rightarrow> 'a list \<Rightarrow> 'a list" where
  "sortBy cmp xs = foldr (insertBy cmp) xs []"

text \<open>Lines 218 to 224: the items \<open>renderTree\<close> maps over.\<close>

definition renderTree_items :: "(string \<Rightarrow> string \<Rightarrow> int) \<Rightarrow> File list \<Rightarrow> string \<Rightarrow> File list" where
  "renderTree_items localeCompare fs parentId =
     sortBy (compareItems localeCompare) (filter (\<lambda>f. f_parentId f = parentId) fs)"

text \<open>
  The order the specification gives for \<open>listChildren\<close>: directories before files,
  then by name under a case-sensitive ordinal comparison (by character code).
\<close>

fun ordinalLe :: "string \<Rightarrow> string \<Rightarrow> bool" where
  "ordinalLe [] t = True"
| "ordinalLe (c # s) [] = False"
| "ordinalLe (c # s) (d # t) = (code c < code d \<or> (code c = code d \<and> ordinalLe s t))"

definition spec_before :: "File \<Rightarrow> File \<Rightarrow> bool" where
  "spec_before a b =
     (if truthy (f_isDirectory a) = truthy (f_isDirectory b)
      then ordinalLe (f_name a) (f_name b)
      else truthy (f_isDirectory a))"

definition spec_listChildren_ordered :: "File list \<Rightarrow> bool" where
  "spec_listChildren_ordered items = sorted_wrt spec_before items"

text \<open>
  When the comparator of \<open>renderTree\<close> is consistent on a list of items: the
  comparison of names is total and transitive on them, and no two of them carry an
  absent \<open>isDirectory\<close> and \<open>isDirectory = false\<close> (the comparator tells those two
  apart although both are files, and then orders them both ways). \<open>display_before\<close> is
  the order the comparator then stands for: directories first, and names by
  \<open>localeCompare\<close> among directories and among files.
\<close>

definition consistentOn :: "(string \<Rightarrow> string \<Rightarrow> int) \<Rightarrow> File list \<Rightarrow> bool" where
  "consistentOn lc items =
     ((\<forall>a \<in> set items. \<forall>b \<in> set items.
         lc (f_name a) (f_name b) \<le> 0 \<or> lc (f_name b) (f_name a) \<le> 0) \<and>
      (\<forall>a \<in> set items. \<forall>b \<in> set items. \<forall>c \<in> set items.
         lc (f_name a) (f_name b) \<le> 0 \<and> lc (f_name b) (f_name c) \<le> 0
         \<longrightarrow> lc (f_name a) (f_name c) \<le> 0) \<and>
      (\<forall>a \<in> set items. \<forall>b \<in> set items.
         truthy (f_isDirectory a) = truthy (f_isDirectory b)
         \<longrightarrow> f_isDirectory a = f_isDirectory b))"

definition display_before :: "(string \<Rightarrow> string \<Rightarrow> int) \<Rightarrow> File \<Rightarrow> File \<Rightarrow> bool" where
  "display_before lc a b =
     (if truthy (f_isDirectory a) = truthy (f_isDirectory b)
      then lc (f_name a) (f_name b) \<le> 0
      else truthy (f_isDirectory a))"

section \<open>The project store (getProjects, saveProjects, duplicateProject)\<close>

text \<open>
  \<open>localStorage\<close> maps keys to strings. \<open>JSON.parse\<close> and \<open>JSON.stringify\<close> are the
  platform's and are parameters; \<open>JSON.parse\<close> returns the value that the source
  types as \<open>Project[]\<close>, or throws a \<open>SyntaxError\<close>.
\<close>

type_synonym localStorage = "string \<Rightarrow> string option"

datatype js_error = SyntaxError

definition STORAGE_KEY :: string where
  "STORAGE_KEY = ''buildora_projects''"

definition tryCatch :: "js_error + 'a \<Rightarrow> (js_error \<Rightarrow> js_error + 'a) \<Rightarrow> js_error + 'a" where
  "tryCatch body handler = (case body of Inl e \<Rightarrow> handler e | Inr v \<Rightarrow> Inr v)"

text \<open>
  Lines 266 to 274. \<open>data ? JSON.parse(data) : []\<close>: \<open>null\<close> (no value stored) and the
  empty string are falsy.
\<close>

definition getProjects ::
  "(string \<Rightarrow> js_error + Project list) \<Rightarrow> localStorage \<Rightarrow> js_error + Project list" where
  "getProjects JSON_parse ls =
     (let data = ls STORAGE_KEY
      in tryCatch
           (case data of
              None \<Rightarrow> Inr []
            | Some d \<Rightarrow> if d = [] then Inr [] else JSON_parse d)
           (\<lambda>e. Inr []))"

definition saveProjects :: "(Project list \<Rightarrow> string) \<Rightarrow> Project list \<Rightarrow> localStorage \<Rightarrow> localStorage" where
  "saveProjects JSON_stringify projects ls = ls(STORAGE_KEY \<mapsto> JSON_stringify projects)"

text \<open>\<open>Number.prototype.toString\<close> of a natural number: its decimal digits.\<close>

definition digitChar :: "nat \<Rightarrow> char" where
  "digitChar d = ''0123456789'' ! d"

fun decimal :: "nat \<Rightarrow> string" where
  "decimal n =
     (if n < 10 then [digitChar n]
      else decimal (n div 10) @ [digitChar (n mod 10)])"

declare decimal.simps [simp del]

text \<open>
  The runtime of \<open>duplicateProject\<close>: what the k-th call of \<open>Date.now()\<close> and of
  \<open>Math.random().toString()\<close> returns.
\<close>

record Runtime =
  dateNow :: "nat \<Rightarrow> nat"
  mathRandom :: "nat \<Rightarrow> string"

text \<open>
  Lines 311 to 314: every file gets the id
  \<open>Date.now().toString() + Math.random().toString().slice(2)\<close>; the spread keeps every
  other field, \<open>parentId\<close> included. The calls 0 and 1 of \<open>Date.now()\<close> are those of
  lines 306 and 308.
\<close>

fun regenerateIds :: "Runtime \<Rightarrow> nat \<Rightarrow> File list \<Rightarrow> File list" where
  "regenerateIds rt k [] = []"
| "regenerateIds rt k (f # fs) =
     f\<lparr>f_id := decimal (dateNow rt (2 + k)) @ drop 2 (mathRandom rt k)\<rparr> #
     regenerateIds rt (Suc k) fs"

text \<open>
  Lines 296 to 320. The deep copy \<open>JSON.parse(JSON.stringify(original))\<close> of a record
  of strings, numbers, booleans and absent fields is the record itself. The result is
  what is returned (\<open>None\<close>: \<open>null\<close>) together with the store afterwards.
\<close>

definition duplicateProject ::
  "(string \<Rightarrow> js_error + Project list) \<Rightarrow> (Project list \<Rightarrow> string) \<Rightarrow> Runtime \<Rightarrow> string \<Rightarrow>
     localStorage \<Rightarrow> (js_error + Project option) \<times> localStorage" where
  "duplicateProject JSON_parse JSON_stringify rt i ls =
     (case getProjects JSON_parse ls of
        Inl e \<Rightarrow> (Inl e, ls)
      | Inr projects \<Rightarrow>
          (case find (\<lambda>p. p_id p = i) projects of
             None \<Rightarrow> (Inr None, ls)
           | Some original \<Rightarrow>
               (let newProject = original
                      \<lparr>p_id := decimal (dateNow rt 0),
                       p_name := p_name original @ '' Copy'',
                       p_lastModified := dateNow rt 1,
                       p_files := regenerateIds rt 0 (p_files original)\<rparr>
                in (Inr (Some newProject),
                    saveProjects JSON_stringify (newProject # projects) ls))))"

section \<open>Properties\<close>

subsection \<open>Sanitization\<close>

lemma dropWhile_head:
  "dropWhile P xs = y # ys \<Longrightarrow> \<not> P y"
  by (induction xs) (auto split: if_splits)

lemma dropWhile_fixed:
  "(xs = [] \<or> \<not> P (hd xs)) \<Longrightarrow> dropWhile P xs = xs"
  by (cases xs) auto

lemma trim_head:
  "trim s = [] \<or> \<not> isWhiteSpace (hd (trim s))"
proof (cases "trim s")
  case Nil
  then show ?thesis by simp
next
  case (Cons a as)
  define y where "y = dropWhile isWhiteSpace s"
  define z where "z = dropWhile isWhiteSpace (rev y)"
  have t: "trim s = rev z" by (simp add: trim_def y_def z_def)
  have "rev y = takeWhile isWhiteSpace (rev y) @ z"
    by (simp add: z_def)
  then have "y = rev z @ rev (takeWhile isWhiteSpace (rev y))"
    by (metis rev_append rev_rev_ident)
  moreover from t Cons have "rev z = a # as"
    by simp
  ultimately have "y = a # (as @ rev (takeWhile isWhiteSpace (rev y)))"
    by simp
  then have "\<not> isWhiteSpace a"
    unfolding y_def by (metis dropWhile_head)
  with Cons show ?thesis by simp
qed

lemma trim_last:
  "trim s = [] \<or> \<not> isWhiteSpace (last (trim s))"
proof (cases "dropWhile isWhiteSpace (rev (dropWhile isWhiteSpace s))")
  case Nil
  then show ?thesis by (simp add: trim_def)
next
  case (Cons a as)
  then have "\<not> isWhiteSpace a" by (rule dropWhile_head)
  with Cons show ?thesis by (simp add: trim_def)
qed

lemma trim_idem: "trim (trim s) = trim s"
proof (cases "trim s = []")
  case True
  have "trim [] = []" by (simp add: trim_def)
  with True show ?thesis by simp
next
  case False
  with trim_head [of s] have h: "dropWhile isWhiteSpace (trim s) = trim s"
    by (simp add: dropWhile_fixed)
  from False trim_last [of s] have "\<not> isWhiteSpace (last (trim s))" by simp
  with False have "\<not> isWhiteSpace (hd (rev (trim s)))"
    by (simp add: hd_rev)
  then have "dropWhile isWhiteSpace (rev (trim s)) = rev (trim s)"
    by (simp add: dropWhile_fixed)
  with h show ?thesis by (simp add: trim_def [of "trim s"])
qed

lemma set_trim: "set (trim s) \<subseteq> set s"
proof
  fix x
  assume "x \<in> set (trim s)"
  then have "x \<in> set (dropWhile isWhiteSpace (rev (dropWhile isWhiteSpace s)))"
    by (simp add: trim_def)
  then have "x \<in> set (rev (dropWhile isWhiteSpace s))"
    by (rule set_dropWhileD)
  then have "x \<in> set (dropWhile isWhiteSpace s)"
    by simp
  then show "x \<in> set s"
    by (rule set_dropWhileD)
qed

lemma filter_safe_trim:
  "filter safeChar (trim (filter safeChar n)) = trim (filter safeChar n)"
proof -
  have "\<forall>c \<in> set (trim (filter safeChar n)). safeChar c"
    using set_trim [of "filter safeChar n"] by auto
  then show ?thesis by (rule filter_True)
qed

lemma safeProjectName_default: "safeProjectName ''Project'' = ''Project''"
  by (simp add: safeProjectName_def trim_def safeChar_def isWhiteSpace_def code_def)

text \<open>
  C8. The sanitization of the project name (strip every character outside
  \<open>[A-Za-z0-9-_\s]\<close>, trim, and take the default label \<open>Project\<close> when nothing is
  left) is idempotent: sanitizing a sanitized name gives the same string.
\<close>

theorem safeProjectName_idempotent:
  "safeProjectName (safeProjectName s) = safeProjectName s"
proof (cases "trim (filter safeChar s) = []")
  case True
  then have "safeProjectName s = ''Project''" by (simp add: safeProjectName_def)
  then show ?thesis by (simp add: safeProjectName_default)
next
  case False
  then have eq: "safeProjectName s = trim (filter safeChar s)"
    by (simp add: safeProjectName_def)
  have "trim (filter safeChar (trim (filter safeChar s))) = trim (filter safeChar s)"
    by (simp add: filter_safe_trim trim_idem)
  with False show ?thesis
    unfolding eq by (simp add: safeProjectName_def [of "trim (filter safeChar s)"])
qed

lemma safeProjectName_chars: "c \<in> set (safeProjectName n) \<Longrightarrow> safeChar c"
proof (cases "trim (filter safeChar n) = []")
  case True
  moreover assume "c \<in> set (safeProjectName n)"
  ultimately have "c \<in> set ''Project''" by (simp add: safeProjectName_def)
  moreover have "list_all safeChar ''Project''"
    by (simp add: safeChar_def code_def)
  ultimately show ?thesis by (simp only: list_all_iff)
next
  case False
  moreover assume "c \<in> set (safeProjectName n)"
  ultimately have "c \<in> set (trim (filter safeChar n))" by (simp add: safeProjectName_def)
  with set_trim [of "filter safeChar n"] show ?thesis by auto
qed

lemma safeProjectName_nonempty: "safeProjectName n \<noteq> []"
  by (simp add: safeProjectName_def Let_def)

lemma forceTrailingSlash_safeProjectName:
  "forceTrailingSlash (safeProjectName n) = safeProjectName n @ ''/''"
proof -
  have "last (safeProjectName n) \<in> set (safeProjectName n)"
    using safeProjectName_nonempty by simp
  then have "safeChar (last (safeProjectName n))" by (rule safeProjectName_chars)
  moreover have "\<not> safeChar CHR ''/''"
    by (simp add: safeChar_def isWhiteSpace_def code_def)
  ultimately have "last (safeProjectName n) \<noteq> CHR ''/''" by auto
  then show ?thesis by (simp add: forceTrailingSlash_def)
qed

lemma root_folder:
  "zipFolder [] (safeProjectName n) [] =
     (safeProjectName n @ ''/'', [(safeProjectName n @ ''/'', Folder)])"
  by (simp add: zipFolder_def Let_def safeProjectName_nonempty forceTrailingSlash_safeProjectName)

subsection \<open>Single-file merge: the entry point\<close>

lemma findByName_None: "(findByName n fs = None) = (\<not> (\<exists>f \<in> set fs. f_name f = n))"
  by (auto simp: findByName_def find_None_iff)

lemma findByName_first:
  "(\<forall>g \<in> set pre. f_name g \<noteq> n) \<Longrightarrow> f_name f = n \<Longrightarrow> findByName n (pre @ f # post) = Some f"
  by (induction pre) (auto simp: findByName_def)

text \<open>
  C4. The single-file merge fails with \<open>MissingEntryPoint\<close> exactly when no File of
  the project is named \<open>index.html\<close>, and it fails in no other way; the name alone is
  looked at, so the File may have any \<open>parentId\<close>. When there is such a File, the merge
  proceeds from the content of the first one in the project's list.
\<close>

theorem single_file_entry_point:
  "((singleFileHtml (p_files p) = Inl MissingEntryPoint) =
      (\<not> (\<exists>f \<in> set (p_files p). f_name f = ''index.html''))) \<and>
   ((exportProject stack True (Some p) = Inl MissingEntryPoint) =
      (\<not> (\<exists>f \<in> set (p_files p). f_name f = ''index.html''))) \<and>
   (\<forall>e. exportProject stack True (Some p) = Inl e \<longrightarrow> e = MissingEntryPoint) \<and>
   (\<forall>pre f post.
      p_files p = pre @ f # post \<and> f_name f = ''index.html'' \<and>
      (\<forall>g \<in> set pre. f_name g \<noteq> ''index.html'')
      \<longrightarrow> singleFileHtml (p_files p) =
            Inr (mergeJs (p_files p) (mergeCss (p_files p) (f_content f))))"
proof (intro conjI allI impI)
  show a: "(singleFileHtml (p_files p) = Inl MissingEntryPoint) =
        (\<not> (\<exists>f \<in> set (p_files p). f_name f = ''index.html''))"
    using findByName_None [of "''index.html''" "p_files p"]
    by (auto simp: singleFileHtml_def split: option.splits)
  have b: "e = MissingEntryPoint" if "singleFileHtml (p_files p) = Inl e" for e
    using that by (auto simp: singleFileHtml_def split: option.splits)
  have c: "(exportProject stack True (Some p) = Inl e) = (singleFileHtml (p_files p) = Inl e)" for e
    by (simp add: exportProject_def Let_def root_folder zipFile_def generateData_def
        split: sum.splits)
  from a c show "(exportProject stack True (Some p) = Inl MissingEntryPoint) =
        (\<not> (\<exists>f \<in> set (p_files p). f_name f = ''index.html''))"
    by simp
  show "e = MissingEntryPoint" if "exportProject stack True (Some p) = Inl e" for e
    using that b c by simp
next
  fix pre f post
  assume "p_files p = pre @ f # post \<and> f_name f = ''index.html'' \<and>
    (\<forall>g \<in> set pre. f_name g \<noteq> ''index.html'')"
  then have "findByName ''index.html'' (p_files p) = Some f"
    using findByName_first [of pre "''index.html''" f post] by simp
  then show "singleFileHtml (p_files p) =
      Inr (mergeJs (p_files p) (mergeCss (p_files p) (f_content f)))"
    by (simp add: singleFileHtml_def)
qed

text \<open>
  An \<open>index.html\<close> inside the folder \<open>pages\<close> is accepted, and a project with only a
  style sheet is refused.
\<close>

theorem single_file_entry_point_witness:
  "singleFileHtml [\<lparr>f_id = ''1'', f_name = ''pages'', f_content = [], f_language = html,
         f_parentId = ''root'', f_isDirectory = Some True, f_isOpen = None\<rparr>, \<lparr>f_id = ''2'', f_name = ''index.html'', f_content = ''<p>hi</p>'', f_language = html,
         f_parentId = ''1'', f_isDirectory = None, f_isOpen = None\<rparr>] = Inr ''<p>hi</p>'' \<and>
   exportProject 0 True
     (Some \<lparr>p_id = ''8'', p_name = ''Styles'', p_type = type_html, p_lastModified = 3,
       p_files = [\<lparr>f_id = ''3'', f_name = ''style.css'', f_content = ''p{}'', f_language = css,
         f_parentId = ''root'', f_isDirectory = None, f_isOpen = None\<rparr>], p_thumbnail = None\<rparr>) = Inl MissingEntryPoint"
proof -
  let ?p = "\<lparr>p_id = ''7'', p_name = ''Site'', p_type = type_html, p_lastModified = 3,
       p_files = [\<lparr>f_id = ''1'', f_name = ''pages'', f_content = [], f_language = html,
         f_parentId = ''root'', f_isDirectory = Some True, f_isOpen = None\<rparr>, \<lparr>f_id = ''2'', f_name = ''index.html'', f_content = ''<p>hi</p>'', f_language = html,
         f_parentId = ''1'', f_isDirectory = None, f_isOpen = None\<rparr>], p_thumbnail = None\<rparr>"
  let ?q = "\<lparr>p_id = ''8'', p_name = ''Styles'', p_type = type_html, p_lastModified = 3,
       p_files = [\<lparr>f_id = ''3'', f_name = ''style.css'', f_content = ''p{}'', f_language = css,
         f_parentId = ''root'', f_isDirectory = None, f_isOpen = None\<rparr>], p_thumbnail = None\<rparr>"
  have "p_files ?p = [\<lparr>f_id = ''1'', f_name = ''pages'', f_content = [], f_language = html,
         f_parentId = ''root'', f_isDirectory = Some True, f_isOpen = None\<rparr>] @ \<lparr>f_id = ''2'', f_name = ''index.html'', f_content = ''<p>hi</p>'', f_language = html,
         f_parentId = ''1'', f_isDirectory = None, f_isOpen = None\<rparr> # [] \<and> f_name \<lparr>f_id = ''2'', f_name = ''index.html'', f_content = ''<p>hi</p>'', f_language = html,
         f_parentId = ''1'', f_isDirectory = None, f_isOpen = None\<rparr> = ''index.html'' \<and>
      (\<forall>g \<in> set [\<lparr>f_id = ''1'', f_name = ''pages'', f_content = [], f_language = html,
         f_parentId = ''root'', f_isDirectory = Some True, f_isOpen = None\<rparr>]. f_name g \<noteq> ''index.html'')"
    by simp
  with single_file_entry_point [of ?p]
  have "singleFileHtml (p_files ?p) =
      Inr (mergeJs (p_files ?p) (mergeCss (p_files ?p) (f_content \<lparr>f_id = ''2'', f_name = ''index.html'', f_content = ''<p>hi</p>'', f_language = html,
         f_parentId = ''1'', f_isDirectory = None, f_isOpen = None\<rparr>)))"
    by blast
  moreover have "mergeJs (p_files ?p) (mergeCss (p_files ?p) (f_content \<lparr>f_id = ''2'', f_name = ''index.html'', f_content = ''<p>hi</p>'', f_language = html,
         f_parentId = ''1'', f_isDirectory = None, f_isOpen = None\<rparr>)) = ''<p>hi</p>''"
    by (simp add: mergeJs_def mergeCss_def chooseJsFile_def findByName_def)
  ultimately have a: "singleFileHtml [\<lparr>f_id = ''1'', f_name = ''pages'', f_content = [], f_language = html,
         f_parentId = ''root'', f_isDirectory = Some True, f_isOpen = None\<rparr>, \<lparr>f_id = ''2'', f_name = ''index.html'', f_content = ''<p>hi</p>'', f_language = html,
         f_parentId = ''1'', f_isDirectory = None, f_isOpen = None\<rparr>] = Inr ''<p>hi</p>''"
    by simp
  have "\<not> (\<exists>f \<in> set (p_files ?q). f_name f = ''index.html'')"
    by simp
  with single_file_entry_point [of ?q 0]
  have "exportProject 0 True (Some ?q) = Inl MissingEntryPoint"
    by blast
  with a show ?thesis by simp
qed

subsection \<open>Single-file merge: the archive\<close>

text \<open>
  C7. For every project the single-file merge accepts (one with a File named
  \<open>index.html\<close>), the archive holds the top-level folder named with the sanitized
  project name and, under it, one file entry: the merged \<open>index.html\<close>. No other File
  of the project is in the archive, however many the project has.
\<close>

theorem single_file_archive:
  assumes "\<exists>f \<in> set (p_files p). f_name f = ''index.html''"
  shows "\<exists>h z. singleFileHtml (p_files p) = Inr h \<and>
           exportProject stack True (Some p) = Inr (z, safeProjectName (p_name p) @ ''.zip'') \<and>
           z = [(safeProjectName (p_name p) @ ''/'', Folder),
                (safeProjectName (p_name p) @ ''/index.html'', TextData h)] \<and>
           fileEntries z = [(safeProjectName (p_name p) @ ''/index.html'', TextData h)]"
proof -
  from assms obtain f where "findByName ''index.html'' (p_files p) = Some f"
    using findByName_None [of "''index.html''" "p_files p"] by auto
  then obtain h where h: "singleFileHtml (p_files p) = Inr h"
    by (simp add: singleFileHtml_def)
  have "exportProject stack True (Some p) =
      Inr ([(safeProjectName (p_name p) @ ''/'', Folder),
            (safeProjectName (p_name p) @ ''/index.html'', TextData h)],
           safeProjectName (p_name p) @ ''.zip'')"
    by (simp add: exportProject_def Let_def root_folder h zipFile_def generateData_def)
  with h show ?thesis by (simp add: fileEntries_def)
qed

text \<open>
  A project of three Files, one of them in a folder: the archive has the folder
  \<open>My Site/\<close> and the one file \<open>My Site/index.html\<close>.
\<close>

theorem single_file_archive_witness:
  "exportProject 0 True
     (Some \<lparr>p_id = ''7'', p_name = ''My Site!'', p_type = type_html, p_lastModified = 3,
       p_files =
         [\<lparr>f_id = ''1'', f_name = ''index.html'', f_content = ''<p>hi</p>'', f_language = html,
           f_parentId = ''root'', f_isDirectory = None, f_isOpen = None\<rparr>,
          \<lparr>f_id = ''2'', f_name = ''assets'', f_content = [], f_language = html,
           f_parentId = ''root'', f_isDirectory = Some True, f_isOpen = None\<rparr>,
          \<lparr>f_id = ''3'', f_name = ''notes.txt'', f_content = ''todo'', f_language = html,
           f_parentId = ''2'', f_isDirectory = Some False, f_isOpen = None\<rparr>],
       p_thumbnail = None\<rparr>) =
   Inr ([(''My Site/'', Folder), (''My Site/index.html'', TextData ''<p>hi</p>'')],
        ''My Site.zip'')"
proof -
  let ?fs = "[\<lparr>f_id = ''1'', f_name = ''index.html'', f_content = ''<p>hi</p>'',
           f_language = html, f_parentId = ''root'', f_isDirectory = None, f_isOpen = None\<rparr>,
          \<lparr>f_id = ''2'', f_name = ''assets'', f_content = [], f_language = html,
           f_parentId = ''root'', f_isDirectory = Some True, f_isOpen = None\<rparr>,
          \<lparr>f_id = ''3'', f_name = ''notes.txt'', f_content = ''todo'', f_language = html,
           f_parentId = ''2'', f_isDirectory = Some False, f_isOpen = None\<rparr>]"
  let ?p = "\<lparr>p_id = ''7'', p_name = ''My Site!'', p_type = type_html, p_lastModified = 3,
       p_files = ?fs, p_thumbnail = None\<rparr>"
  have name: "safeProjectName (p_name ?p) = ''My Site''"
    by (simp add: safeProjectName_def trim_def safeChar_def isWhiteSpace_def code_def)
  have html: "singleFileHtml (p_files ?p) = Inr ''<p>hi</p>''"
    by (simp add: singleFileHtml_def mergeJs_def mergeCss_def chooseJsFile_def findByName_def)
  have "\<exists>f \<in> set (p_files ?p). f_name f = ''index.html''"
    by simp
  from single_file_archive [OF this, of 0] show ?thesis
    unfolding name html by auto
qed

subsection \<open>Single-file merge: where the blocks go\<close>

lemma getSubstitution_plain:
  "CHR ''$'' \<notin> set r \<Longrightarrow> getSubstitution m b a r = r"
  by (induction m b a r rule: getSubstitution.induct) auto

text \<open>
  \<open>search\<close> with a string pattern finds the first occurrence of the pattern. For a block
  without a dollar sign the source inserts as the specification says: always for the
  script, and for the style sheet when the document has \<open></head>\<close> or has no \<open><body\<close>.
\<close>

lemma search_stringPattern:
  "search (stringPattern pat) s = Some (b, x, a) \<Longrightarrow> x = pat \<and> s = b @ pat @ a"
proof (induction s arbitrary: b)
  case Nil
  then show ?case
    by (auto simp: stringPattern_def split: if_splits)
next
  case (Cons c cs)
  show ?case
  proof (cases "prefix pat (c # cs)")
    case True
    then have "stringPattern pat (c # cs) = Some (length pat)"
      by (simp add: stringPattern_def)
    with Cons.prems
    have "b = [] \<and> x = take (length pat) (c # cs) \<and> a = drop (length pat) (c # cs)"
      by auto
    moreover from True have "take (length pat) (c # cs) = pat"
      by (metis prefix_def append_eq_conv_conj)
    ultimately show ?thesis
      by (metis append_take_drop_id append_Nil)
  next
    case False
    then have "stringPattern pat (c # cs) = None"
      by (simp add: stringPattern_def)
    with Cons.prems obtain b' where "search (stringPattern pat) cs = Some (b', x, a)" "b = c # b'"
      by (auto split: option.splits)
    with Cons.IH [of b'] show ?thesis by simp
  qed
qed

lemma search_stringPattern_first:
  "search (stringPattern pat) s = Some (b, x, a) \<Longrightarrow> s = b' @ pat @ a' \<Longrightarrow> length b \<le> length b'"
proof (induction s arbitrary: b b')
  case Nil
  then show ?case
    by (auto simp: stringPattern_def split: if_splits)
next
  case (Cons c cs)
  show ?case
  proof (cases "prefix pat (c # cs)")
    case True
    then have "stringPattern pat (c # cs) = Some (length pat)"
      by (simp add: stringPattern_def)
    with Cons.prems(1) show ?thesis by auto
  next
    case False
    then have "stringPattern pat (c # cs) = None"
      by (simp add: stringPattern_def)
    with Cons.prems(1) obtain b0 where b0: "search (stringPattern pat) cs = Some (b0, x, a)" "b = c # b0"
      by (auto split: option.splits)
    from False Cons.prems(2) have "b' \<noteq> []"
      by (auto simp: prefix_def)
    with Cons.prems(2) obtain b1 where b1: "b' = c # b1" "cs = b1 @ pat @ a'"
      by (cases b') auto
    from Cons.IH [OF b0(1) b1(2)] b0(2) b1(1) show ?thesis by simp
  qed
qed

lemma replaceFirst_plain:
  "CHR ''$'' \<notin> set r \<Longrightarrow>
   replaceFirst m r s = (case search m s of None \<Rightarrow> s | Some (b, x, a) \<Rightarrow> b @ r @ a)"
  by (simp add: replaceFirst_def getSubstitution_plain split: option.splits)

lemma injectJs_plain:
  assumes "CHR ''$'' \<notin> set jsBlock"
  shows "injectJs jsBlock doc = spec_injectJs jsBlock doc"
proof -
  from assms have "CHR ''$'' \<notin> set (jsBlock @ nl @ ''</body>'')"
    by (simp add: nl_def)
  then show ?thesis
    by (simp add: injectJs_def spec_injectJs_def spec_insertBefore_def includes_str_def
        replaceFirst_plain split: option.splits)
qed

lemma injectCss_plain:
  assumes "CHR ''$'' \<notin> set cssBlock"
    and "includes_str ''</head>'' doc \<or> \<not> includes_str ''<body'' doc"
  shows "injectCss cssBlock doc = spec_injectCss cssBlock doc"
proof -
  from assms(1) have "CHR ''$'' \<notin> set (cssBlock @ nl @ ''</head>'')"
    by (simp add: nl_def)
  with assms(2) show ?thesis
    by (auto simp: injectCss_def spec_injectCss_def spec_insertBefore_def includes_str_def
        replaceFirst_plain split: option.splits)
qed

lemma chooseJsFile_prefers_script:
  "(findByName ''script.js'' fs = Some f \<longrightarrow> chooseJsFile fs = Some f) \<and>
   (findByName ''script.js'' fs = None \<longrightarrow> chooseJsFile fs = findByName ''main.js'' fs)"
  by (simp add: chooseJsFile_def)

text \<open>
  C5, at the failing input. The document has a \<open>head\<close>; the style sheet holds a dollar
  sign followed by a quote, as in \<open>content:'$'\<close>. The specification inserts the style
  block as it is. The source passes the block to \<open>replace\<close> as the replacement string,
  which expands \<open>$'\<close> to the text after the match: the merged document differs from the
  specified one.
\<close>

theorem injectCss_expands_dollar:
  "injectCss (cssBlockOf ''.cost::before{content:'$'}'')
     ''<html><head></head><body></body></html>'' =
   ''<html><head><style>\<newline>/* Injected from style.css */\<newline>.cost::before{content:'<body></body></html>}\<newline></style>\<newline></head><body></body></html>'' \<and>
   spec_injectCss (cssBlockOf ''.cost::before{content:'$'}'')
     ''<html><head></head><body></body></html>'' =
   ''<html><head><style>\<newline>/* Injected from style.css */\<newline>.cost::before{content:'$'}\<newline></style>\<newline></head><body></body></html>'' \<and>
   injectCss (cssBlockOf ''.cost::before{content:'$'}'')
     ''<html><head></head><body></body></html>'' \<noteq>
   spec_injectCss (cssBlockOf ''.cost::before{content:'$'}'')
     ''<html><head></head><body></body></html>''"
  by code_simp

text \<open>
  A second way in which \<open>injectCss\<close> leaves the specified insertion: line 51 looks for
  \<open><body\<close> as it is written, line 52 replaces the first match of the pattern in any
  case and writes it back in lower case.
\<close>

lemma injectCss_body_case:
  "injectCss ''CSS'' ''<BODY><body>'' = ''CSS\<newline><body><body>'' \<and>
   spec_injectCss ''CSS'' ''<BODY><body>'' = ''<BODY>CSS\<newline><body>''"
  by code_simp

text \<open>
  C6, at the failing input. The document has a \<open>body\<close>; the script holds a dollar sign
  followed by a quote, as in \<open>'$' + total\<close>. The specification inserts the script block
  as it is; the source expands \<open>$'\<close> to the text after the match.
\<close>

theorem injectJs_expands_dollar:
  "injectJs
     (jsBlockOf \<lparr>f_id = ''3'', f_name = ''script.js'',
        f_content = ''el.textContent = '$' + total;'', f_language = javascript,
        f_parentId = ''root'', f_isDirectory = None, f_isOpen = None\<rparr>)
     ''<html><body><p>x</p></body></html>'' =
   ''<html><body><p>x</p><script>\<newline>/* Injected from script.js */\<newline>el.textContent = '</html> + total;\<newline></script>\<newline></body></html>'' \<and>
   spec_injectJs
     (jsBlockOf \<lparr>f_id = ''3'', f_name = ''script.js'',
        f_content = ''el.textContent = '$' + total;'', f_language = javascript,
        f_parentId = ''root'', f_isDirectory = None, f_isOpen = None\<rparr>)
     ''<html><body><p>x</p></body></html>'' =
   ''<html><body><p>x</p><script>\<newline>/* Injected from script.js */\<newline>el.textContent = '$' + total;\<newline></script>\<newline></body></html>'' \<and>
   injectJs
     (jsBlockOf \<lparr>f_id = ''3'', f_name = ''script.js'',
        f_content = ''el.textContent = '$' + total;'', f_language = javascript,
        f_parentId = ''root'', f_isDirectory = None, f_isOpen = None\<rparr>)
     ''<html><body><p>x</p></body></html>'' \<noteq>
   spec_injectJs
     (jsBlockOf \<lparr>f_id = ''3'', f_name = ''script.js'',
        f_content = ''el.textContent = '$' + total;'', f_language = javascript,
        f_parentId = ''root'', f_isDirectory = None, f_isOpen = None\<rparr>)
     ''<html><body><p>x</p></body></html>''"
  by code_simp

subsection \<open>The project store\<close>

lemma getProjects_cases:
  "getProjects JSON_parse ls =
     (case ls STORAGE_KEY of
        None \<Rightarrow> Inr []
      | Some d \<Rightarrow> if d = [] then Inr []
                  else (case JSON_parse d of Inl e \<Rightarrow> Inr [] | Inr ps \<Rightarrow> Inr ps))"
  by (simp add: getProjects_def tryCatch_def split: option.splits sum.splits)

text \<open>
  C10. \<open>getProjects\<close> never throws. It returns the empty list when nothing is stored
  under the key, the parsed list when the stored text is valid JSON (which the empty
  string is not), and the empty list when \<open>JSON.parse\<close> throws.
\<close>

theorem getProjects_never_throws:
  "(\<exists>ps. getProjects JSON_parse ls = Inr ps) \<and>
   (ls STORAGE_KEY = None \<longrightarrow> getProjects JSON_parse ls = Inr []) \<and>
   (\<forall>d ps. ls STORAGE_KEY = Some d \<and> d \<noteq> [] \<and> JSON_parse d = Inr ps
      \<longrightarrow> getProjects JSON_parse ls = Inr ps) \<and>
   (\<forall>d e. ls STORAGE_KEY = Some d \<and> JSON_parse d = Inl e
      \<longrightarrow> getProjects JSON_parse ls = Inr [])"
  by (auto simp: getProjects_cases split: option.splits sum.splits)

text \<open>
  With a parser that accepts one text and throws on every other: nothing stored, a
  stored text that does not parse, and a stored list of one project.
\<close>

theorem getProjects_never_throws_witness:
  "getProjects (\<lambda>d. if d = ''[p]'' then Inr [\<lparr>p_id = ''7'', p_name = ''Site'', p_type = type_html, p_lastModified = 3,
         p_files = [], p_thumbnail = None\<rparr>] else Inl SyntaxError) Map.empty = Inr [] \<and>
   getProjects (\<lambda>d. if d = ''[p]'' then Inr [\<lparr>p_id = ''7'', p_name = ''Site'', p_type = type_html, p_lastModified = 3,
         p_files = [], p_thumbnail = None\<rparr>] else Inl SyntaxError)
     [STORAGE_KEY \<mapsto> ''{oops''] = Inr [] \<and>
   getProjects (\<lambda>d. if d = ''[p]'' then Inr [\<lparr>p_id = ''7'', p_name = ''Site'', p_type = type_html, p_lastModified = 3,
         p_files = [], p_thumbnail = None\<rparr>] else Inl SyntaxError)
     [STORAGE_KEY \<mapsto> ''[p]''] = Inr [\<lparr>p_id = ''7'', p_name = ''Site'', p_type = type_html, p_lastModified = 3,
         p_files = [], p_thumbnail = None\<rparr>]"
proof -
  let ?parse = "\<lambda>d. if d = ''[p]'' then Inr [\<lparr>p_id = ''7'', p_name = ''Site'', p_type = type_html, p_lastModified = 3,
         p_files = [], p_thumbnail = None\<rparr>] else Inl SyntaxError"
  have "Map.empty STORAGE_KEY = (None :: string option)"
    by simp
  with getProjects_never_throws [of ?parse Map.empty]
  have a: "getProjects ?parse Map.empty = Inr []"
    by blast
  have "[STORAGE_KEY \<mapsto> ''{oops''] STORAGE_KEY = Some ''{oops'' \<and>
      ?parse ''{oops'' = Inl SyntaxError"
    by simp
  with getProjects_never_throws [of ?parse "[STORAGE_KEY \<mapsto> ''{oops'']"]
  have b: "getProjects ?parse [STORAGE_KEY \<mapsto> ''{oops''] = Inr []"
    by blast
  have "[STORAGE_KEY \<mapsto> ''[p]''] STORAGE_KEY = Some ''[p]'' \<and> ''[p]'' \<noteq> [] \<and>
      ?parse ''[p]'' = Inr [\<lparr>p_id = ''7'', p_name = ''Site'', p_type = type_html, p_lastModified = 3,
         p_files = [], p_thumbnail = None\<rparr>]"
    by simp
  with getProjects_never_throws [of ?parse "[STORAGE_KEY \<mapsto> ''[p]'']"]
  have c: "getProjects ?parse [STORAGE_KEY \<mapsto> ''[p]''] = Inr [\<lparr>p_id = ''7'', p_name = ''Site'', p_type = type_html, p_lastModified = 3,
         p_files = [], p_thumbnail = None\<rparr>]"
    by blast
  from a b c show ?thesis by simp
qed

text \<open>
  C9. When the id matches no project of the stored list (the list \<open>getProjects\<close>
  returns), \<open>duplicateProject\<close> returns \<open>null\<close> and the store is what it was: nothing is
  saved.
\<close>

theorem duplicateProject_unknown_id:
  assumes "getProjects JSON_parse ls = Inr projects"
    and "\<forall>p \<in> set projects. p_id p \<noteq> i"
  shows "duplicateProject JSON_parse JSON_stringify rt i ls = (Inr None, ls)"
proof -
  from assms(2) have "find (\<lambda>p. p_id p = i) projects = None"
    by (simp add: find_None_iff)
  with assms(1) show ?thesis
    by (simp add: duplicateProject_def)
qed

theorem duplicateProject_unknown_id_witness:
  "duplicateProject (\<lambda>d. Inr [\<lparr>p_id = ''7'', p_name = ''Site'', p_type = type_html, p_lastModified = 3,
         p_files = [], p_thumbnail = None\<rparr>]) (\<lambda>ps. ''saved'')
     \<lparr>dateNow = (\<lambda>k. 1700000000000), mathRandom = (\<lambda>k. ''0.5'')\<rparr> ''42''
     [STORAGE_KEY \<mapsto> ''stored''] =
   (Inr None, [STORAGE_KEY \<mapsto> ''stored''])"
proof -
  have "getProjects (\<lambda>d. Inr [\<lparr>p_id = ''7'', p_name = ''Site'', p_type = type_html, p_lastModified = 3,
         p_files = [], p_thumbnail = None\<rparr>]) [STORAGE_KEY \<mapsto> ''stored''] = Inr [\<lparr>p_id = ''7'', p_name = ''Site'', p_type = type_html, p_lastModified = 3,
         p_files = [], p_thumbnail = None\<rparr>]"
    by (simp add: getProjects_def tryCatch_def)
  moreover have "\<forall>p \<in> set [\<lparr>p_id = ''7'', p_name = ''Site'', p_type = type_html, p_lastModified = 3,
         p_files = [], p_thumbnail = None\<rparr>]. p_id p \<noteq> ''42''"
    by simp
  ultimately show ?thesis
    by (rule duplicateProject_unknown_id)
qed

subsection \<open>Duplication and the parent links\<close>

lemma regenerateIds_length: "length (regenerateIds rt k fs) = length fs"
  by (induction fs arbitrary: k) auto

lemma regenerateIds_nth:
  "n < length fs \<Longrightarrow>
   regenerateIds rt k fs ! n =
     (fs ! n)\<lparr>f_id := decimal (dateNow rt (2 + (k + n))) @ drop 2 (mathRandom rt (k + n))\<rparr>"
proof (induction fs arbitrary: k n)
  case Nil
  then show ?case by simp
next
  case (Cons f fs)
  show ?case
  proof (cases n)
    case 0
    then show ?thesis by simp
  next
    case (Suc m)
    with Cons.prems have "m < length fs" by simp
    from Cons.IH [OF this, of "Suc k"] Suc show ?thesis by simp
  qed
qed

lemma regenerateIds_parentId:
  "map f_parentId (regenerateIds rt k fs) = map f_parentId fs"
  by (induction fs arbitrary: k) auto

lemma regenerateIds_breaks_links:
  assumes "c < length fs" "d < length fs"
    and "f_parentId (fs ! c) = f_id (fs ! d)"
    and "f_id (regenerateIds rt 0 fs ! d) \<notin> f_id ` set fs"
  shows "f_parentId (regenerateIds rt 0 fs ! c) \<noteq> f_id (regenerateIds rt 0 fs ! d)"
proof -
  have "f_parentId (regenerateIds rt 0 fs ! c) = f_id (fs ! d)"
    using assms(1,3) by (simp add: regenerateIds_nth)
  moreover have "f_id (fs ! d) \<in> f_id ` set fs"
    using assms(2) by simp
  ultimately show ?thesis using assms(4) by metis
qed

text \<open>
  C1, at the failing input. The stored project has the folder \<open>assets\<close> (id \<open>10\<close>) and
  in it the file \<open>logo.png\<close> (\<open>parentId\<close> \<open>10\<close>). In the duplicate both have new ids,
  and \<open>logo.png\<close> still has the \<open>parentId\<close> \<open>10\<close>, which is the id of no File of the
  duplicate: the parent link is lost. By \<open>regenerateIds_breaks_links\<close> this happens to
  every nested File whenever the new id of its folder is not an id of the original.
\<close>

theorem duplicateProject_orphans_children:
  "map (\<lambda>f. (f_name f, f_id f, f_parentId f))
     (case fst (duplicateProject
          (\<lambda>d. Inr [\<lparr>p_id = ''1699999999999'', p_name = ''Site'', p_type = type_html,
                       p_lastModified = 1699999999999,
                       p_files =
                         [\<lparr>f_id = ''10'', f_name = ''assets'', f_content = [], f_language = html,
                           f_parentId = ''root'', f_isDirectory = Some True, f_isOpen = None\<rparr>,
                          \<lparr>f_id = ''11'', f_name = ''logo.png'', f_content = ''data:image/png;base64,AAAA'',
                           f_language = image, f_parentId = ''10'', f_isDirectory = Some False,
                           f_isOpen = None\<rparr>],
                       p_thumbnail = None\<rparr>])
          (\<lambda>ps. ''saved'')
          \<lparr>dateNow = (\<lambda>k. 1700000000000), mathRandom = (\<lambda>k. ''0.'' @ decimal (4711 + k))\<rparr>
          ''1699999999999''
          [STORAGE_KEY \<mapsto> ''stored'']) of
        Inr (Some copy) \<Rightarrow> p_files copy
      | _ \<Rightarrow> []) =
   [(''assets'', ''17000000000004711'', ''root''),
    (''logo.png'', ''17000000000004712'', ''10'')]"
  by (simp add: duplicateProject_def getProjects_def tryCatch_def Let_def digitChar_def decimal.simps)


subsection \<open>Standard export: what is written for a leaf\<close>














subsection \<open>Standard export: the generated archive\<close>















lemma generateData_cases:
  "generateData Folder = Some Folder"
  "generateData (TextData t) = Some (TextData t)"
  "generateData (BinaryData b) = Some (BinaryData b)"
  "generateData (Base64Data s) = map_option BinaryData (base64_decode s)"
  by (simp_all add: generateData_def)











text \<open>
  A part of the claim that the amended claim leaves out: for a data URI with a second
  comma the source stores \<open>parts[1]\<close>, the piece up to the second comma, so the entry
  holds the bytes of \<open>QUJD\<close> and not those of what remains after the first comma.
\<close>

lemma leaf_second_comma:
  "exportProject 2 False (Some \<lparr>p_id = ''7'', p_name = ''Site'', p_type = type_html, p_lastModified = 3,
      p_files = [\<lparr>f_id = ''15'', f_name = ''two.bin'',
        f_content = ''data:application/octet-stream;base64,QUJD,REVG'',
        f_language = image, f_parentId = ''root'', f_isDirectory = Some False, f_isOpen = None\<rparr>],
      p_thumbnail = None\<rparr>) =
     Inr ([(''Site/'', Folder), (''Site/two.bin'', BinaryData [65, 66, 67])], ''Site.zip'') \<and>
   spec_dataUriPayload (f_content \<lparr>f_id = ''15'', f_name = ''two.bin'',
        f_content = ''data:application/octet-stream;base64,QUJD,REVG'',
        f_language = image, f_parentId = ''root'', f_isDirectory = Some False, f_isOpen = None\<rparr>) = ''QUJD,REVG'' \<and>
   base64_decode ''QUJD,REVG'' = Some [65, 66, 67, 68, 69, 70]"
  by code_simp



subsection \<open>Enumeration of the children of a folder\<close>

lemma mset_insertBy: "mset (insertBy cmp x xs) = add_mset x (mset xs)"
  by (induction xs) auto

lemma set_insertBy: "set (insertBy cmp x xs) = insert x (set xs)"
  by (induction xs) auto

lemma mset_sortBy: "mset (sortBy cmp xs) = mset xs"
  by (induction xs) (auto simp: sortBy_def mset_insertBy)

lemma set_sortBy: "set (sortBy cmp xs) = set xs"
  by (induction xs) (auto simp: sortBy_def set_insertBy)

lemma sorted_insertBy:
  assumes total: "\<And>a b. a \<in> insert x (set xs) \<Longrightarrow> b \<in> insert x (set xs) \<Longrightarrow>
        cmp a b \<le> 0 \<or> cmp b a \<le> 0"
    and trans: "\<And>a b c. a \<in> insert x (set xs) \<Longrightarrow> b \<in> insert x (set xs) \<Longrightarrow>
        c \<in> insert x (set xs) \<Longrightarrow> cmp a b \<le> 0 \<Longrightarrow> cmp b c \<le> 0 \<Longrightarrow> cmp a c \<le> 0"
    and sorted: "sorted_wrt (\<lambda>a b. cmp a b \<le> 0) xs"
  shows "sorted_wrt (\<lambda>a b. cmp a b \<le> 0) (insertBy cmp x xs)"
  using assms
proof (induction xs)
  case Nil
  show ?case by simp
next
  case (Cons y ys)
  show ?case
  proof (cases "cmp x y \<le> 0")
    case True
    have "cmp x z \<le> 0" if "z \<in> set ys" for z
    proof -
      from Cons.prems(3) that have "cmp y z \<le> 0" by simp
      with True that show ?thesis
        using Cons.prems(2) [of x y z] by simp
    qed
    with True Cons.prems(3) show ?thesis by simp
  next
    case False
    with Cons.prems(1) [of x y] have yx: "cmp y x \<le> 0" by simp
    have "sorted_wrt (\<lambda>a b. cmp a b \<le> 0) (insertBy cmp x ys)"
    proof (rule Cons.IH)
      show "cmp a b \<le> 0 \<or> cmp b a \<le> 0"
        if "a \<in> insert x (set ys)" "b \<in> insert x (set ys)" for a b
        using that Cons.prems(1) [of a b] by auto
      show "cmp a c \<le> 0"
        if "a \<in> insert x (set ys)" "b \<in> insert x (set ys)" "c \<in> insert x (set ys)"
          "cmp a b \<le> 0" "cmp b c \<le> 0" for a b c
        using that Cons.prems(2) [of a b c] by auto
      show "sorted_wrt (\<lambda>a b. cmp a b \<le> 0) ys"
        using Cons.prems(3) by simp
    qed
    with False yx Cons.prems(3) show ?thesis
      by (auto simp: set_insertBy)
  qed
qed

lemma sorted_sortBy:
  assumes total: "\<And>a b. a \<in> set xs \<Longrightarrow> b \<in> set xs \<Longrightarrow> cmp a b \<le> 0 \<or> cmp b a \<le> 0"
    and trans: "\<And>a b c. a \<in> set xs \<Longrightarrow> b \<in> set xs \<Longrightarrow> c \<in> set xs \<Longrightarrow>
        cmp a b \<le> 0 \<Longrightarrow> cmp b c \<le> 0 \<Longrightarrow> cmp a c \<le> 0"
  shows "sorted_wrt (\<lambda>a b. cmp a b \<le> 0) (sortBy cmp xs)"
  using assms
proof (induction xs)
  case Nil
  show ?case by (simp add: sortBy_def)
next
  case (Cons x xs)
  have ih: "sorted_wrt (\<lambda>a b. cmp a b \<le> 0) (sortBy cmp xs)"
  proof (rule Cons.IH)
    show "cmp a b \<le> 0 \<or> cmp b a \<le> 0" if "a \<in> set xs" "b \<in> set xs" for a b
      using that Cons.prems(1) [of a b] by simp
    show "cmp a c \<le> 0"
      if "a \<in> set xs" "b \<in> set xs" "c \<in> set xs" "cmp a b \<le> 0" "cmp b c \<le> 0" for a b c
      using that Cons.prems(2) [of a b c] by simp
  qed
  have "sorted_wrt (\<lambda>a b. cmp a b \<le> 0) (insertBy cmp x (sortBy cmp xs))"
  proof (rule sorted_insertBy)
    show "cmp a b \<le> 0 \<or> cmp b a \<le> 0"
      if "a \<in> insert x (set (sortBy cmp xs))" "b \<in> insert x (set (sortBy cmp xs))" for a b
      using that Cons.prems(1) [of a b] by (simp add: set_sortBy)
    show "cmp a c \<le> 0"
      if "a \<in> insert x (set (sortBy cmp xs))" "b \<in> insert x (set (sortBy cmp xs))"
        "c \<in> insert x (set (sortBy cmp xs))" "cmp a b \<le> 0" "cmp b c \<le> 0" for a b c
      using that Cons.prems(2) [of a b c] by (simp add: set_sortBy)
    show "sorted_wrt (\<lambda>a b. cmp a b \<le> 0) (sortBy cmp xs)"
      by (rule ih)
  qed
  then show ?case by (simp add: sortBy_def)
qed


lemma compareItems_total:
  assumes "lc (f_name a) (f_name b) \<le> 0 \<or> lc (f_name b) (f_name a) \<le> 0"
    and "truthy (f_isDirectory a) = truthy (f_isDirectory b) \<longrightarrow> f_isDirectory a = f_isDirectory b"
  shows "compareItems lc a b \<le> 0 \<or> compareItems lc b a \<le> 0"
  using assms by (auto simp: compareItems_def)

lemma compareItems_trans:
  assumes "lc (f_name a) (f_name b) \<le> 0 \<and> lc (f_name b) (f_name c) \<le> 0
      \<longrightarrow> lc (f_name a) (f_name c) \<le> 0"
    and "truthy (f_isDirectory a) = truthy (f_isDirectory b) \<longrightarrow> f_isDirectory a = f_isDirectory b"
    and "truthy (f_isDirectory b) = truthy (f_isDirectory c) \<longrightarrow> f_isDirectory b = f_isDirectory c"
    and "truthy (f_isDirectory a) = truthy (f_isDirectory c) \<longrightarrow> f_isDirectory a = f_isDirectory c"
    and "compareItems lc a b \<le> 0" and "compareItems lc b c \<le> 0"
  shows "compareItems lc a c \<le> 0"
  using assms by (auto simp: compareItems_def split: if_splits)

lemma sorted_renderTree_items:
  assumes "consistentOn lc (processFolder_items fs parentId)"
  shows "sorted_wrt (display_before lc) (renderTree_items lc fs parentId)"
proof -
  let ?items = "processFolder_items fs parentId"
  let ?cmp = "compareItems lc"
  have s: "sorted_wrt (\<lambda>a b. ?cmp a b \<le> 0) (sortBy ?cmp ?items)"
  proof (rule sorted_sortBy)
    show "?cmp a b \<le> 0 \<or> ?cmp b a \<le> 0" if "a \<in> set ?items" "b \<in> set ?items" for a b
    proof (rule compareItems_total)
      from assms that
      show "lc (f_name a) (f_name b) \<le> 0 \<or> lc (f_name b) (f_name a) \<le> 0"
        unfolding consistentOn_def by blast
      from assms that
      show "truthy (f_isDirectory a) = truthy (f_isDirectory b) \<longrightarrow> f_isDirectory a = f_isDirectory b"
        unfolding consistentOn_def by blast
    qed
    show "?cmp a c \<le> 0"
      if "a \<in> set ?items" "b \<in> set ?items" "c \<in> set ?items" "?cmp a b \<le> 0" "?cmp b c \<le> 0"
      for a b c
    proof (rule compareItems_trans [of lc a b c])
      from assms that(1,2,3)
      show "lc (f_name a) (f_name b) \<le> 0 \<and> lc (f_name b) (f_name c) \<le> 0
          \<longrightarrow> lc (f_name a) (f_name c) \<le> 0"
        unfolding consistentOn_def by blast
      from assms that(1,2)
      show "truthy (f_isDirectory a) = truthy (f_isDirectory b) \<longrightarrow> f_isDirectory a = f_isDirectory b"
        unfolding consistentOn_def by blast
      from assms that(2,3)
      show "truthy (f_isDirectory b) = truthy (f_isDirectory c) \<longrightarrow> f_isDirectory b = f_isDirectory c"
        unfolding consistentOn_def by blast
      from assms that(1,3)
      show "truthy (f_isDirectory a) = truthy (f_isDirectory c) \<longrightarrow> f_isDirectory a = f_isDirectory c"
        unfolding consistentOn_def by blast
    qed (use that in simp_all)
  qed
  have "sorted_wrt (display_before lc) (sortBy ?cmp ?items)"
  proof (rule sorted_wrt_mono_rel [OF _ s])
    fix a b
    assume "a \<in> set (sortBy ?cmp ?items)" "b \<in> set (sortBy ?cmp ?items)" "?cmp a b \<le> 0"
    then have "a \<in> set ?items" "b \<in> set ?items" "?cmp a b \<le> 0"
      by (simp_all add: set_sortBy)
    moreover from assms this
    have "truthy (f_isDirectory a) = truthy (f_isDirectory b) \<longrightarrow> f_isDirectory a = f_isDirectory b"
      unfolding consistentOn_def by blast
    ultimately show "display_before lc a b"
      unfolding display_before_def compareItems_def
      by (auto split: if_splits)
  qed
  then show ?thesis
    by (simp add: renderTree_items_def processFolder_items_def)
qed

text \<open>
  C2, as the claim states it, fails for the export traversal: \<open>processFolder\<close> does not
  sort. With \<open>script.js\<close>, the folder \<open>assets\<close> and \<open>index.html\<close> stored in this order,
  it enumerates them in this order, a file before the folder and \<open>script.js\<close> before
  \<open>index.html\<close>.
\<close>

theorem children_enumeration_counterexample:
  "processFolder_items [\<lparr>f_id = ''3'', f_name = ''script.js'', f_content = ''x'', f_language = javascript,
        f_parentId = ''root'', f_isDirectory = None, f_isOpen = None\<rparr>, \<lparr>f_id = ''10'', f_name = ''assets'', f_content = [], f_language = html,
        f_parentId = ''root'', f_isDirectory = Some True, f_isOpen = None\<rparr>, \<lparr>f_id = ''1'', f_name = ''index.html'', f_content = ''y'', f_language = html,
        f_parentId = ''root'', f_isDirectory = None, f_isOpen = None\<rparr>, \<lparr>f_id = ''11'', f_name = ''logo.png'', f_content = ''z'', f_language = image,
        f_parentId = ''10'', f_isDirectory = None, f_isOpen = None\<rparr>] ''root'' = [\<lparr>f_id = ''3'', f_name = ''script.js'', f_content = ''x'', f_language = javascript,
        f_parentId = ''root'', f_isDirectory = None, f_isOpen = None\<rparr>, \<lparr>f_id = ''10'', f_name = ''assets'', f_content = [], f_language = html,
        f_parentId = ''root'', f_isDirectory = Some True, f_isOpen = None\<rparr>, \<lparr>f_id = ''1'', f_name = ''index.html'', f_content = ''y'', f_language = html,
        f_parentId = ''root'', f_isDirectory = None, f_isOpen = None\<rparr>] \<and>
   \<not> spec_listChildren_ordered (processFolder_items [\<lparr>f_id = ''3'', f_name = ''script.js'', f_content = ''x'', f_language = javascript,
        f_parentId = ''root'', f_isDirectory = None, f_isOpen = None\<rparr>, \<lparr>f_id = ''10'', f_name = ''assets'', f_content = [], f_language = html,
        f_parentId = ''root'', f_isDirectory = Some True, f_isOpen = None\<rparr>, \<lparr>f_id = ''1'', f_name = ''index.html'', f_content = ''y'', f_language = html,
        f_parentId = ''root'', f_isDirectory = None, f_isOpen = None\<rparr>, \<lparr>f_id = ''11'', f_name = ''logo.png'', f_content = ''z'', f_language = image,
        f_parentId = ''10'', f_isDirectory = None, f_isOpen = None\<rparr>] ''root'')"
  by (simp add: processFolder_items_def spec_listChildren_ordered_def spec_before_def truthy_def)

text \<open>
  C2, amended. For every tree and every \<open>parentId\<close>: the export traversal enumerates
  the Files whose \<open>parentId\<close> is the given id in the order of the project's list, without
  sorting; the child listing of the display enumerates the same Files, sorted, when
  the comparator is consistent on them, with directories before files and, within each
  group, by name under \<open>localeCompare\<close> (the locale's comparison, not an ordinal one).
  Both are functions of the tree, so two enumerations of one tree are the same sequence.
\<close>

theorem children_enumeration:
  "processFolder_items fs parentId = filter (\<lambda>f. f_parentId f = parentId) fs \<and>
   subseq (processFolder_items fs parentId) fs \<and>
   set (processFolder_items fs parentId) = {f \<in> set fs. f_parentId f = parentId} \<and>
   mset (renderTree_items lc fs parentId) = mset (processFolder_items fs parentId) \<and>
   (consistentOn lc (processFolder_items fs parentId) \<longrightarrow>
      sorted_wrt (display_before lc) (renderTree_items lc fs parentId))"
proof (intro conjI impI)
  show "processFolder_items fs parentId = filter (\<lambda>f. f_parentId f = parentId) fs"
    by (simp add: processFolder_items_def)
  show "subseq (processFolder_items fs parentId) fs"
    by (simp add: processFolder_items_def)
  show "set (processFolder_items fs parentId) = {f \<in> set fs. f_parentId f = parentId}"
    by (simp add: processFolder_items_def)
  show "mset (renderTree_items lc fs parentId) = mset (processFolder_items fs parentId)"
    by (simp only: renderTree_items_def processFolder_items_def mset_sortBy)
  show "sorted_wrt (display_before lc) (renderTree_items lc fs parentId)"
    if "consistentOn lc (processFolder_items fs parentId)"
    using that by (rule sorted_renderTree_items)
qed

text \<open>
  The same tree, with the ordinal comparison of names in the place of \<open>localeCompare\<close>:
  the display lists \<open>assets\<close>, \<open>index.html\<close>, \<open>script.js\<close>; the export keeps the stored
  order.
\<close>

theorem children_enumeration_witness:
  "consistentOn (\<lambda>a b. if a = b then 0 else if ordinalLe a b then - 1 else 1) (processFolder_items [\<lparr>f_id = ''3'', f_name = ''script.js'', f_content = ''x'', f_language = javascript,
        f_parentId = ''root'', f_isDirectory = None, f_isOpen = None\<rparr>, \<lparr>f_id = ''10'', f_name = ''assets'', f_content = [], f_language = html,
        f_parentId = ''root'', f_isDirectory = Some True, f_isOpen = None\<rparr>, \<lparr>f_id = ''1'', f_name = ''index.html'', f_content = ''y'', f_language = html,
        f_parentId = ''root'', f_isDirectory = None, f_isOpen = None\<rparr>, \<lparr>f_id = ''11'', f_name = ''logo.png'', f_content = ''z'', f_language = image,
        f_parentId = ''10'', f_isDirectory = None, f_isOpen = None\<rparr>] ''root'') \<and>
   sorted_wrt (display_before (\<lambda>a b. if a = b then 0 else if ordinalLe a b then - 1 else 1)) (renderTree_items (\<lambda>a b. if a = b then 0 else if ordinalLe a b then - 1 else 1) [\<lparr>f_id = ''3'', f_name = ''script.js'', f_content = ''x'', f_language = javascript,
        f_parentId = ''root'', f_isDirectory = None, f_isOpen = None\<rparr>, \<lparr>f_id = ''10'', f_name = ''assets'', f_content = [], f_language = html,
        f_parentId = ''root'', f_isDirectory = Some True, f_isOpen = None\<rparr>, \<lparr>f_id = ''1'', f_name = ''index.html'', f_content = ''y'', f_language = html,
        f_parentId = ''root'', f_isDirectory = None, f_isOpen = None\<rparr>, \<lparr>f_id = ''11'', f_name = ''logo.png'', f_content = ''z'', f_language = image,
        f_parentId = ''10'', f_isDirectory = None, f_isOpen = None\<rparr>] ''root'') \<and>
   renderTree_items (\<lambda>a b. if a = b then 0 else if ordinalLe a b then - 1 else 1) [\<lparr>f_id = ''3'', f_name = ''script.js'', f_content = ''x'', f_language = javascript,
        f_parentId = ''root'', f_isDirectory = None, f_isOpen = None\<rparr>, \<lparr>f_id = ''10'', f_name = ''assets'', f_content = [], f_language = html,
        f_parentId = ''root'', f_isDirectory = Some True, f_isOpen = None\<rparr>, \<lparr>f_id = ''1'', f_name = ''index.html'', f_content = ''y'', f_language = html,
        f_parentId = ''root'', f_isDirectory = None, f_isOpen = None\<rparr>, \<lparr>f_id = ''11'', f_name = ''logo.png'', f_content = ''z'', f_language = image,
        f_parentId = ''10'', f_isDirectory = None, f_isOpen = None\<rparr>] ''root'' = [\<lparr>f_id = ''10'', f_name = ''assets'', f_content = [], f_language = html,
        f_parentId = ''root'', f_isDirectory = Some True, f_isOpen = None\<rparr>, \<lparr>f_id = ''1'', f_name = ''index.html'', f_content = ''y'', f_language = html,
        f_parentId = ''root'', f_isDirectory = None, f_isOpen = None\<rparr>, \<lparr>f_id = ''3'', f_name = ''script.js'', f_content = ''x'', f_language = javascript,
        f_parentId = ''root'', f_isDirectory = None, f_isOpen = None\<rparr>] \<and>
   processFolder_items [\<lparr>f_id = ''3'', f_name = ''script.js'', f_content = ''x'', f_language = javascript,
        f_parentId = ''root'', f_isDirectory = None, f_isOpen = None\<rparr>, \<lparr>f_id = ''10'', f_name = ''assets'', f_content = [], f_language = html,
        f_parentId = ''root'', f_isDirectory = Some True, f_isOpen = None\<rparr>, \<lparr>f_id = ''1'', f_name = ''index.html'', f_content = ''y'', f_language = html,
        f_parentId = ''root'', f_isDirectory = None, f_isOpen = None\<rparr>, \<lparr>f_id = ''11'', f_name = ''logo.png'', f_content = ''z'', f_language = image,
        f_parentId = ''10'', f_isDirectory = None, f_isOpen = None\<rparr>] ''root'' = [\<lparr>f_id = ''3'', f_name = ''script.js'', f_content = ''x'', f_language = javascript,
        f_parentId = ''root'', f_isDirectory = None, f_isOpen = None\<rparr>, \<lparr>f_id = ''10'', f_name = ''assets'', f_content = [], f_language = html,
        f_parentId = ''root'', f_isDirectory = Some True, f_isOpen = None\<rparr>, \<lparr>f_id = ''1'', f_name = ''index.html'', f_content = ''y'', f_language = html,
        f_parentId = ''root'', f_isDirectory = None, f_isOpen = None\<rparr>]"
proof -
  let ?lc = "(\<lambda>a b. if a = b then 0 else if ordinalLe a b then - 1 else 1) :: string \<Rightarrow> string \<Rightarrow> int"
  let ?fs = "[\<lparr>f_id = ''3'', f_name = ''script.js'', f_content = ''x'', f_language = javascript,
        f_parentId = ''root'', f_isDirectory = None, f_isOpen = None\<rparr>, \<lparr>f_id = ''10'', f_name = ''assets'', f_content = [], f_language = html,
        f_parentId = ''root'', f_isDirectory = Some True, f_isOpen = None\<rparr>, \<lparr>f_id = ''1'', f_name = ''index.html'', f_content = ''y'', f_language = html,
        f_parentId = ''root'', f_isDirectory = None, f_isOpen = None\<rparr>, \<lparr>f_id = ''11'', f_name = ''logo.png'', f_content = ''z'', f_language = image,
        f_parentId = ''10'', f_isDirectory = None, f_isOpen = None\<rparr>]"
  have c: "consistentOn ?lc (processFolder_items ?fs ''root'')"
    by code_simp
  from children_enumeration [where lc = ?lc and fs = ?fs and parentId = "''root''",
      THEN conjunct2, THEN conjunct2, THEN conjunct2, THEN conjunct2, THEN mp, OF c]
  have "sorted_wrt (display_before ?lc) (renderTree_items ?lc ?fs ''root'')"
    by blast
  moreover have "renderTree_items ?lc ?fs ''root'' = [\<lparr>f_id = ''10'', f_name = ''assets'', f_content = [], f_language = html,
        f_parentId = ''root'', f_isDirectory = Some True, f_isOpen = None\<rparr>, \<lparr>f_id = ''1'', f_name = ''index.html'', f_content = ''y'', f_language = html,
        f_parentId = ''root'', f_isDirectory = None, f_isOpen = None\<rparr>, \<lparr>f_id = ''3'', f_name = ''script.js'', f_content = ''x'', f_language = javascript,
        f_parentId = ''root'', f_isDirectory = None, f_isOpen = None\<rparr>]"
    by code_simp
  moreover have "processFolder_items ?fs ''root'' = [\<lparr>f_id = ''3'', f_name = ''script.js'', f_content = ''x'', f_language = javascript,
        f_parentId = ''root'', f_isDirectory = None, f_isOpen = None\<rparr>, \<lparr>f_id = ''10'', f_name = ''assets'', f_content = [], f_language = html,
        f_parentId = ''root'', f_isDirectory = Some True, f_isOpen = None\<rparr>, \<lparr>f_id = ''1'', f_name = ''index.html'', f_content = ''y'', f_language = html,
        f_parentId = ''root'', f_isDirectory = None, f_isOpen = None\<rparr>]"
    by code_simp
  ultimately show ?thesis using c by blast
qed

end
